theory Spec2Isabelle
  imports Main
begin

section \<open>JSON text, as \<^verbatim>\<open>JSON.stringify\<close> writes it\<close>

text \<open>
  The values handed to \<^verbatim>\<open>sendToClient(clientId, data: any)\<close> in this repository are
  object literals of strings and integers. They are modelled by a tree of JSON values;
  a number is an integer (\<^verbatim>\<open>progress\<close>, \<^verbatim>\<open>Date.now()\<close>), a string is a list of
  bytes (UTF-8), an object keeps the order in which its members were written and holds
  no member whose value is \<^verbatim>\<open>undefined\<close> (\<^verbatim>\<open>JSON.stringify\<close> leaves those out).
\<close>

datatype json =
    JNull
  | JBool bool
  | JNum int
  | JStr string
  | JArr "json list"
  | JObj "(string \<times> json) list"

definition digit_char :: "nat \<Rightarrow> char" where
  "digit_char n = ''0123456789'' ! n"

fun nat_toString :: "nat \<Rightarrow> string" where
  "nat_toString n =
     (if n < 10 then [digit_char n] else nat_toString (n div 10) @ [digit_char (n mod 10)])"

declare nat_toString.simps [simp del]

text \<open>\<^verbatim>\<open>Number.prototype.toString()\<close> on an integer: decimal digits, a minus sign first
  when it is negative.\<close>

definition toString :: "int \<Rightarrow> string" where
  "toString i = (if i < 0 then CHR ''-'' # nat_toString (nat (- i)) else nat_toString (nat i))"

definition hex_char :: "nat \<Rightarrow> char" where
  "hex_char n = ''0123456789abcdef'' ! n"

text \<open>The escapes of \<^verbatim>\<open>JSON.stringify\<close> for one character of a string: the double
  quote, the backslash, the five short control escapes, \<^verbatim>\<open>\u00xx\<close> for the other
  control characters, and the character itself otherwise.\<close>

definition escape_char :: "char \<Rightarrow> string" where
  "escape_char c =
     (if c = CHR 0x22 then [CHR 0x5C, CHR 0x22]
      else if c = CHR 0x5C then [CHR 0x5C, CHR 0x5C]
      else if c = CHR 0x08 then [CHR 0x5C, CHR ''b'']
      else if c = CHR 0x0C then [CHR 0x5C, CHR ''f'']
      else if c = CHR 0x0A then [CHR 0x5C, CHR ''n'']
      else if c = CHR 0x0D then [CHR 0x5C, CHR ''r'']
      else if c = CHR 0x09 then [CHR 0x5C, CHR ''t'']
      else if (of_char c :: nat) < 32
        then [CHR 0x5C, CHR ''u'', CHR ''0'', CHR ''0'',
              hex_char (of_char c div 16), hex_char (of_char c mod 16)]
      else [c])"

definition quote :: "string \<Rightarrow> string" where
  "quote s = CHR 0x22 # concat (map escape_char s) @ [CHR 0x22]"

fun JSON_stringify :: "json \<Rightarrow> string"
  and stringify_elements :: "json list \<Rightarrow> string"
  and stringify_members :: "(string \<times> json) list \<Rightarrow> string"
where
  "JSON_stringify JNull = ''null''"
| "JSON_stringify (JBool b) = (if b then ''true'' else ''false'')"
| "JSON_stringify (JNum i) = toString i"
| "JSON_stringify (JStr s) = quote s"
| "JSON_stringify (JArr vs) = ''['' @ stringify_elements vs @ '']''"
| "JSON_stringify (JObj ms) = ''{'' @ stringify_members ms @ ''}''"
| "stringify_elements [] = []"
| "stringify_elements [v] = JSON_stringify v"
| "stringify_elements (v # w # vs) = JSON_stringify v @ '','' @ stringify_elements (w # vs)"
| "stringify_members [] = []"
| "stringify_members [(k, v)] = quote k @ '':'' @ JSON_stringify v"
| "stringify_members ((k, v) # m # ms) =
     quote k @ '':'' @ JSON_stringify v @ '','' @ stringify_members (m # ms)"

text \<open>The wire framing of both write sites of the registry:
  \<^verbatim>\<open>`data: ${JSON.stringify(data)}\n\n`\<close>.\<close>

definition frame :: "json \<Rightarrow> string" where
  "frame d = ''data: '' @ JSON_stringify d @ [CHR 0x0A, CHR 0x0A]"


section \<open>Keyed stores in insertion order\<close>

text \<open>
  A JavaScript \<^verbatim>\<open>Map\<close> with string keys iterates in insertion order; \<^verbatim>\<open>set\<close> on a
  key already present replaces the value where it stands, \<^verbatim>\<open>set\<close> on a new key
  appends, \<^verbatim>\<open>delete\<close> takes the entry out. It is an association list here, and its
  keys are distinct. The headers of a response are kept the same way.
\<close>

fun Map_get :: "(string \<times> 'v) list \<Rightarrow> string \<Rightarrow> 'v option" where
  "Map_get [] k = None"
| "Map_get ((k', v) # m) k = (if k' = k then Some v else Map_get m k)"

fun Map_set :: "string \<Rightarrow> 'v \<Rightarrow> (string \<times> 'v) list \<Rightarrow> (string \<times> 'v) list" where
  "Map_set k v [] = [(k, v)]"
| "Map_set k v ((k', v') # m) = (if k' = k then (k, v) # m else (k', v') # Map_set k v m)"

fun Map_delete :: "string \<Rightarrow> (string \<times> 'v) list \<Rightarrow> (string \<times> 'v) list" where
  "Map_delete k [] = []"
| "Map_delete k ((k', v) # m) = (if k' = k then m else (k', v) # Map_delete k m)"

section \<open>The response handle of the transport\<close>

text \<open>
  \<^verbatim>\<open>Response\<close> is the HTTP framework's object, not code of this repository. The model
  keeps what the handler and the registry use of it: the headers set so far, whether the
  header block has gone out, and everything handed to it for the wire, oldest first.
  Whether its write raises is a parameter of the transport, \<open>writeRaises\<close>; a write that
  raises puts nothing on the wire. The framework this repository runs on raises nothing
  on the write of a string, also when the peer is gone and the socket destroyed: the
  write then returns \<^verbatim>\<open>false\<close>, which no caller in this repository reads. Every state
  of that framework has \<open>writeRaises\<close> false; the parameter is kept so that what the
  registry does with a raising write, which is nothing, can be stated.
\<close>

datatype wire = HeaderBlock "(string \<times> string) list" | Chunk string

datatype error = HeadersSent | WriteFailed

record Response =
  headers :: "(string \<times> string) list"
  headersSent :: bool
  sent :: "wire list"
  writeRaises :: bool

definition setHeader :: "string \<Rightarrow> string \<Rightarrow> Response \<Rightarrow> error + Response" where
  "setHeader k v r =
     (if headersSent r then Inl HeadersSent else Inr (r\<lparr>headers := Map_set k v (headers r)\<rparr>))"

definition flushHeaders :: "Response \<Rightarrow> Response" where
  "flushHeaders r =
     (if headersSent r then r
      else r\<lparr>headersSent := True, sent := sent r @ [HeaderBlock (headers r)]\<rparr>)"

definition res_write :: "string \<Rightarrow> Response \<Rightarrow> error + Response" where
  "res_write s r =
     (if writeRaises r then Inl WriteFailed
      else Inr ((flushHeaders r)\<lparr>sent := sent (flushHeaders r) @ [Chunk s]\<rparr>))"

text \<open>The body of a response: the chunks on the wire, in order.\<close>

fun body :: "wire list \<Rightarrow> string list" where
  "body [] = []"
| "body (HeaderBlock hs # ws) = body ws"
| "body (Chunk s # ws) = s # body ws"


section \<open>The registry: \<^verbatim>\<open>SSEManager\<close>\<close>

text \<open>
  \<^verbatim>\<open>clients\<close> is a \<^verbatim>\<open>Map\<close> from the identifier to the client. A client holds a
  reference to its response object; the response objects live in a store indexed by
  reference, so that two clients sharing one response object are visible as such.
\<close>

record SSEClient =
  id' :: string
  response :: nat

datatype listener = RemoveClient string

record world =
  clients :: "(string \<times> SSEClient) list"
  responses :: "nat \<Rightarrow> Response"
  closeListeners :: "nat \<Rightarrow> listener list"

definition addClient :: "SSEClient \<Rightarrow> world \<Rightarrow> world" where
  "addClient client w = w\<lparr>clients := Map_set (id' client) client (clients w)\<rparr>"

definition removeClient :: "string \<Rightarrow> world \<Rightarrow> world" where
  "removeClient clientId w = w\<lparr>clients := Map_delete clientId (clients w)\<rparr>"

text \<open>Statements of a handler, run in order on the shared state: a statement that raises
  ends the run there, and what was done before it stays done.\<close>

type_synonym action = "world \<Rightarrow> (error + unit) \<times> world"

fun seq :: "action list \<Rightarrow> action" where
  "seq [] w = (Inr (), w)"
| "seq (f # fs) w = (case f w of (Inl e, w') \<Rightarrow> (Inl e, w') | (Inr u, w') \<Rightarrow> seq fs w')"

definition pure :: "(world \<Rightarrow> world) \<Rightarrow> action" where
  "pure f w = (Inr (), f w)"

text \<open>A method call on the response object behind a reference.\<close>

definition on_response :: "nat \<Rightarrow> (Response \<Rightarrow> error + Response) \<Rightarrow> action" where
  "on_response h f w =
     (case f (responses w h) of
        Inl e \<Rightarrow> (Inl e, w)
      | Inr r \<Rightarrow> (Inr (), w\<lparr>responses := (responses w)(h := r)\<rparr>))"

text \<open>No \<^verbatim>\<open>try\<close> stands around the write: what the write raises, \<^verbatim>\<open>sendToClient\<close>
  raises.\<close>

definition sendToClient :: "string \<Rightarrow> json \<Rightarrow> action" where
  "sendToClient clientId d w =
     (case Map_get (clients w) clientId of
        None \<Rightarrow> (Inr (), w)
      | Some client \<Rightarrow> on_response (response client) (res_write (frame d)) w)"

text \<open>\<^verbatim>\<open>clients.forEach\<close>: the entries in insertion order; a write that raises ends the
  iteration, the writes made before it stay made.\<close>

definition broadcast :: "json \<Rightarrow> action" where
  "broadcast d w =
     seq (map (\<lambda>(k, client). on_response (response client) (res_write (frame d))) (clients w)) w"


section \<open>The streaming endpoint: \<^verbatim>\<open>sseMiddleware\<close>\<close>

text \<open>
  A request carries its route parameter (\<^verbatim>\<open>req.params.clientId\<close>, absent or a string)
  and is the object the close listener is attached to; \<^verbatim>\<open>conn\<close> names that object.
  The only listener this repository attaches is the closure of lines 62 to 64, which
  holds the resolved identifier. \<^verbatim>\<open>Date.now()\<close> is read from the parameter \<open>now\<close>.
\<close>

record Request =
  conn :: nat
  params_clientId :: "string option"

text \<open>\<^verbatim>\<open>!x\<close> on a value that is a string when present: an absent value and the empty
  string are the falsy ones.\<close>

definition falsy :: "string option \<Rightarrow> bool" where
  "falsy x = (x = None \<or> x = Some [])"

text \<open>\<^verbatim>\<open>req.params.clientId || Date.now().toString()\<close>.\<close>

definition resolve_clientId :: "Request \<Rightarrow> int \<Rightarrow> string" where
  "resolve_clientId req now =
     (case params_clientId req of
        None \<Rightarrow> toString now
      | Some s \<Rightarrow> if s = [] then toString now else s)"

definition req_on_close :: "nat \<Rightarrow> listener \<Rightarrow> world \<Rightarrow> world" where
  "req_on_close c l w = w\<lparr>closeListeners := (closeListeners w)(c := closeListeners w c @ [l])\<rparr>"

definition connected :: "string \<Rightarrow> json" where
  "connected clientId = JObj [(''type'', JStr ''connected''), (''clientId'', JStr clientId)]"

definition sseMiddleware :: "Request \<Rightarrow> nat \<Rightarrow> int \<Rightarrow> action" where
  "sseMiddleware req res now =
     (let clientId = resolve_clientId req now;
          client = \<lparr>id' = clientId, response = res\<rparr>
      in seq
        [on_response res (setHeader ''Content-Type'' ''text/event-stream''),
         on_response res (setHeader ''Cache-Control'' ''no-cache''),
         on_response res (setHeader ''Connection'' ''keep-alive''),
         on_response res (\<lambda>r. Inr (flushHeaders r)),
         pure (addClient client),
         on_response res (res_write (frame (connected clientId))),
         pure (req_on_close (conn req) (RemoveClient clientId))])"

text \<open>The close notification of a request object: its listeners run in the order they
  were attached.\<close>

fun run_listener :: "listener \<Rightarrow> world \<Rightarrow> world" where
  "run_listener (RemoveClient clientId) w = removeClient clientId w"

definition emit_close :: "nat \<Rightarrow> world \<Rightarrow> world" where
  "emit_close c w = fold run_listener (closeListeners w c) w"


text \<open>What can happen to the shared state between two moments of interest: a connection
  is opened, a request object closes, an event is published or broadcast. A call that
  raises leaves the state it had reached.\<close>

datatype event =
    Connect Request nat int
  | Close nat
  | Publish string json
  | Broadcast json

fun apply_event :: "event \<Rightarrow> world \<Rightarrow> world" where
  "apply_event (Connect req res now) w = snd (sseMiddleware req res now w)"
| "apply_event (Close c) w = emit_close c w"
| "apply_event (Publish clientId d) w = snd (sendToClient clientId d w)"
| "apply_event (Broadcast d) w = snd (broadcast d w)"


section \<open>The producer-facing interface: \<^verbatim>\<open>sendProgressUpdate\<close>\<close>

datatype update_type = Token | Collection | Nft

datatype update_status = Started | Progress | Completed | Error

record ProgressUpdate =
  type :: update_type
  status :: update_status
  step :: "string option"
  progress :: "int option"
  message :: "string option"
  error :: "string option"

fun type_name :: "update_type \<Rightarrow> string" where
  "type_name Token = ''token''"
| "type_name Collection = ''collection''"
| "type_name Nft = ''nft''"

fun status_name :: "update_status \<Rightarrow> string" where
  "status_name Started = ''started''"
| "status_name Progress = ''progress''"
| "status_name Completed = ''completed''"
| "status_name Error = ''error''"

fun optional_member :: "string \<Rightarrow> ('a \<Rightarrow> json) \<Rightarrow> 'a option \<Rightarrow> (string \<times> json) list" where
  "optional_member k f None = []"
| "optional_member k f (Some v) = [(k, f v)]"

text \<open>The object a call site passes: every literal of the handlers writes its members in
  the order of the interface, and gives no member it has no value for.\<close>

definition ProgressUpdate_json :: "ProgressUpdate \<Rightarrow> json" where
  "ProgressUpdate_json u =
     JObj ([(''type'', JStr (type_name (type u))), (''status'', JStr (status_name (status u)))]
           @ optional_member ''step'' JStr (step u)
           @ optional_member ''progress'' JNum (progress u)
           @ optional_member ''message'' JStr (message u)
           @ optional_member ''error'' JStr (error u))"

definition sendProgressUpdate :: "string \<Rightarrow> ProgressUpdate \<Rightarrow> action" where
  "sendProgressUpdate clientId update = sendToClient clientId (ProgressUpdate_json update)"


section \<open>The request handlers, as producers of progress events\<close>

text \<open>
  What the registry sees of a handler is its calls of \<^verbatim>\<open>sendProgressUpdate\<close>, in order,
  all of them for \<^verbatim>\<open>req.body.clientId\<close>, and the claims about the handlers are about
  that sequence. A handler is written as
  the statements of its \<^verbatim>\<open>try\<close> block and of its \<^verbatim>\<open>catch\<close> block; running it gives
  the events it emits and how it ends. The calls into the ledger SDK are outside this
  repository: each stretch of them between two events is a statement \<open>Call\<close>, which
  either returns or throws an error with a message, as the parameter \<open>sdk\<close> says. Each
  call of \<^verbatim>\<open>sendProgressUpdate\<close> is taken to return.
\<close>

datatype stmt =
    Emit ProgressUpdate
  | Call "string option"
  | If bool "stmt list"
  | Return nat

datatype completion = Normal | Returned nat | Thrown string

fun exec :: "stmt \<Rightarrow> ProgressUpdate list \<times> completion"
  and exec_block :: "stmt list \<Rightarrow> ProgressUpdate list \<times> completion"
where
  "exec (Emit u) = ([u], Normal)"
| "exec (Call None) = ([], Normal)"
| "exec (Call (Some m)) = ([], Thrown m)"
| "exec (If b ss) = (if b then exec_block ss else ([], Normal))"
| "exec (Return n) = ([], Returned n)"
| "exec_block [] = ([], Normal)"
| "exec_block (s # ss) =
     (case exec s of
        (evs, Normal) \<Rightarrow> (case exec_block ss of (evs', c) \<Rightarrow> (evs @ evs', c))
      | (evs, c) \<Rightarrow> (evs, c))"

definition try_catch :: "stmt list \<Rightarrow> (string \<Rightarrow> stmt list) \<Rightarrow> ProgressUpdate list \<times> completion" where
  "try_catch block handler =
     (case exec_block block of
        (evs, Thrown m) \<Rightarrow> (case exec_block (handler m) of (evs', c) \<Rightarrow> (evs @ evs', c))
      | (evs, c) \<Rightarrow> (evs, c))"

definition message_event :: "update_type \<Rightarrow> update_status \<Rightarrow> string \<Rightarrow> ProgressUpdate" where
  "message_event t s m =
     \<lparr>type = t, status = s, step = None, progress = None, message = Some m, error = None\<rparr>"

definition progress_event :: "update_type \<Rightarrow> string \<Rightarrow> int \<Rightarrow> string \<Rightarrow> ProgressUpdate" where
  "progress_event t st p m =
     \<lparr>type = t, status = Progress, step = Some st, progress = Some p, message = Some m,
      error = None\<rparr>"

definition completed_event :: "update_type \<Rightarrow> string \<Rightarrow> ProgressUpdate" where
  "completed_event t m =
     \<lparr>type = t, status = Completed, step = None, progress = Some 100, message = Some m,
      error = None\<rparr>"

subsection \<open>\<^verbatim>\<open>createToken\<close>\<close>

record CreateTokenRequest =
  token_name :: "string option"
  token_uri :: "string option"
  symbol :: "string option"
  publicKey :: "string option"

text \<open>The SDK calls of \<^verbatim>\<open>createToken\<close>: lines 97 to 106, 117 to 142 and 153 to 170.\<close>

record token_sdk =
  token_connect :: "string option"
  token_build :: "string option"
  token_finalize :: "string option"

definition createToken :: "CreateTokenRequest \<Rightarrow> token_sdk \<Rightarrow> ProgressUpdate list \<times> completion" where
  "createToken b sdk =
     try_catch
       [Emit (message_event Token Started ''Preparing token creation transaction''),
        If (falsy (token_name b) \<or> falsy (token_uri b) \<or> falsy (symbol b) \<or> falsy (publicKey b))
          [Return 400],
        Emit (progress_event Token ''initialization'' 40 ''Initializing connection''),
        Call (token_connect sdk),
        Emit (progress_event Token ''building'' 60 ''Building transaction''),
        Call (token_build sdk),
        Emit (progress_event Token ''finalizing'' 80 ''Finalizing transaction''),
        Call (token_finalize sdk),
        Emit (completed_event Token ''Transaction prepared successfully''),
        Return 200]
       (\<lambda>m. [Emit (message_event Token Error (''Failed to prepare transaction: '' @ m)),
             Return 500])"

subsection \<open>\<^verbatim>\<open>deployCollection\<close>\<close>

record CollectionRequestBody =
  collection_name :: "string option"
  collection_uri :: "string option"
  collection_privateKey :: "string option"

text \<open>\<^verbatim>\<open>getWalletKeypair\<close> throws when the key does not decode (caught at lines 161 to
  167); then the SDK calls of lines 176 to 180, 191 to 202 and 213 to 225.\<close>

record collection_sdk =
  collection_keypair_fails :: bool
  collection_connect :: "string option"
  collection_prepare :: "string option"
  collection_deploy :: "string option"

definition deployCollection ::
  "CollectionRequestBody \<Rightarrow> collection_sdk \<Rightarrow> ProgressUpdate list \<times> completion" where
  "deployCollection b sdk =
     try_catch
       [Emit (message_event Collection Started ''Starting collection deployment process''),
        Emit (progress_event Collection ''validation'' 20 ''Validating input parameters''),
        If (falsy (collection_name b) \<or> falsy (collection_uri b)
            \<or> falsy (collection_privateKey b))
          [Return 400],
        Emit (progress_event Collection ''wallet_init'' 40 ''Initializing wallet''),
        If (collection_keypair_fails sdk) [Return 400],
        Emit (progress_event Collection ''connection'' 60 ''Setting up blockchain connection''),
        Call (collection_connect sdk),
        Emit (progress_event Collection ''preparation'' 70 ''Preparing collection parameters''),
        Call (collection_prepare sdk),
        Emit (progress_event Collection ''deployment'' 80 ''Deploying collection to blockchain''),
        Call (collection_deploy sdk),
        Emit (completed_event Collection ''Collection deployed successfully''),
        Return 200]
       (\<lambda>m. [Emit (message_event Collection Error (''Collection deployment failed: '' @ m)),
             Return 500])"

subsection \<open>\<^verbatim>\<open>mintCollectionNFT\<close>\<close>

record Metadata =
  metadata_name :: "string option"
  metadata_uri :: "string option"

record MintNFTRequestBody =
  rpcEndpoint :: "string option"
  privateKey :: "string option"
  collectionMint :: "string option"
  metadata :: "Metadata option"

text \<open>Reading \<^verbatim>\<open>metadata.name\<close> of an absent \<^verbatim>\<open>metadata\<close> throws a TypeError, whose
  message is the engine's; \<^verbatim>\<open>new Connection\<close> (line 126), the block hash request
  (caught at lines 129 to 140), \<^verbatim>\<open>getWalletKeypair\<close> (caught at lines 151 to 162),
  and the SDK calls of lines 173 to 178, 190 to 193 and 205 to 213.\<close>

record mint_sdk =
  type_error_message :: string
  mint_connection :: "string option"
  mint_blockhash_fails :: bool
  mint_keypair_fails :: bool
  mint_umi :: "string option"
  mint_fetch :: "string option"
  mint_create :: "string option"

definition metadata_field :: "(Metadata \<Rightarrow> string option) \<Rightarrow> MintNFTRequestBody \<Rightarrow> string option" where
  "metadata_field f b = (case metadata b of None \<Rightarrow> None | Some m \<Rightarrow> f m)"

definition mintCollectionNFT ::
  "MintNFTRequestBody \<Rightarrow> mint_sdk \<Rightarrow> ProgressUpdate list \<times> completion" where
  "mintCollectionNFT b sdk =
     try_catch
       [Emit (message_event Nft Started ''Starting NFT minting process''),
        Emit (progress_event Nft ''validation'' 15 ''Validating input parameters''),
        If (falsy (rpcEndpoint b))
          [Emit (message_event Nft Error ''RPC endpoint is required''), Return 400],
        If (falsy (privateKey b))
          [Emit (message_event Nft Error ''Private key is required''), Return 400],
        Call (if \<not> falsy (collectionMint b) \<and> metadata b = None
              then Some (type_error_message sdk) else None),
        If (falsy (collectionMint b) \<or> falsy (metadata_field metadata_name b)
            \<or> falsy (metadata_field metadata_uri b))
          [Emit (message_event Nft Error
             ''Missing required fields: collectionMint, metadata.name, or metadata.uri''),
           Return 400],
        Emit (progress_event Nft ''connection'' 30 ''Initializing blockchain connection''),
        Call (mint_connection sdk),
        If (mint_blockhash_fails sdk)
          [Emit (message_event Nft Error ''Invalid RPC endpoint or connection failed''), Return 400],
        Emit (progress_event Nft ''wallet_init'' 45 ''Initializing wallet''),
        If (mint_keypair_fails sdk)
          [Emit (message_event Nft Error ''Invalid private key format. Must be base64 encoded.''),
           Return 400],
        Emit (progress_event Nft ''umi_init'' 60 ''Initializing UMI and fetching collection''),
        Call (mint_umi sdk),
        Emit (progress_event Nft ''collection_verification'' 75
                ''Verifying collection and preparing NFT''),
        Call (mint_fetch sdk),
        Emit (progress_event Nft ''minting'' 90 ''Minting NFT on blockchain''),
        Call (mint_create sdk),
        Emit (completed_event Nft ''NFT minted successfully''),
        Return 200]
       (\<lambda>m. [Emit (message_event Nft Error (''NFT minting failed: '' @ m)), Return 500])"

text \<open>A terminal event has status \<^verbatim>\<open>completed\<close> or \<^verbatim>\<open>error\<close>.\<close>

definition terminal :: "ProgressUpdate \<Rightarrow> bool" where
  "terminal u = (status u = Completed \<or> status u = Error)"

definition terminal_count :: "ProgressUpdate list \<Rightarrow> nat" where
  "terminal_count evs = length (filter terminal evs)"


text \<open>
  A check of a block along its paths, for the count of terminal events: \<open>k\<close> terminal
  events have been emitted so far, and every path of the block must end in a
  \<^verbatim>\<open>return\<close> with exactly one emitted, or in a throw with none. A conditional block is
  taken to end in a \<^verbatim>\<open>return\<close>, as those of the handlers do.
\<close>

fun check :: "nat \<Rightarrow> stmt list \<Rightarrow> bool" where
  "check k [] = False"
| "check k (Emit u # ss) = check (k + (if terminal u then 1 else 0)) ss"
| "check k (Call x # ss) = ((x \<noteq> None \<longrightarrow> k = 0) \<and> (x = None \<longrightarrow> check k ss))"
| "check k (If b bs # ss) = ((b \<longrightarrow> check k bs) \<and> (\<not> b \<longrightarrow> check k ss))"
| "check k (Return n # ss) = (k = 1)"

definition one_terminal :: "nat \<Rightarrow> ProgressUpdate list \<times> completion \<Rightarrow> bool" where
  "one_terminal k res =
     (case res of
        (evs, Normal) \<Rightarrow> False
      | (evs, Returned n) \<Rightarrow> k + terminal_count evs = 1
      | (evs, Thrown m) \<Rightarrow> k = 0 \<and> terminal_count evs = 0)"


section \<open>Reading identifiers\<close>

text \<open>A string that \<^verbatim>\<open>JSON.stringify\<close> writes between quotes as it is: no double quote,
  no backslash, no control character.\<close>

definition plain :: "string \<Rightarrow> bool" where
  "plain s = list_all (\<lambda>c. c \<noteq> CHR 0x22 \<and> c \<noteq> CHR 0x5C \<and> 32 \<le> (of_char c :: nat)) s"

text \<open>The number a string of decimal digits denotes.\<close>

definition decimal_value :: "string \<Rightarrow> int" where
  "decimal_value s = foldl (\<lambda>a c. 10 * a + (int (of_char c) - 48)) 0 s"


section \<open>Example states\<close>

text \<open>A response object as the framework hands it to a handler, and the state after
  \<^verbatim>\<open>new SSEManager()\<close>: no client, no listener.\<close>

definition fresh_response :: Response where
  "fresh_response = \<lparr>headers = [], headersSent = False, sent = [], writeRaises = False\<rparr>"

definition initial_world :: world where
  "initial_world =
     \<lparr>clients = [], responses = (\<lambda>h. fresh_response), closeListeners = (\<lambda>c. [])\<rparr>"

definition token_started :: ProgressUpdate where
  "token_started = message_event Token Started ''Preparing token creation transaction''"

definition token_progress :: ProgressUpdate where
  "token_progress = progress_event Token ''initialization'' 40 ''Initializing connection''"

definition token_completed :: ProgressUpdate where
  "token_completed = completed_event Token ''Transaction prepared successfully''"

definition request_abc :: Request where
  "request_abc = \<lparr>conn = 0, params_clientId = Some ''abc''\<rparr>"

definition request_anonymous :: Request where
  "request_anonymous = \<lparr>conn = 0, params_clientId = None\<rparr>"

text \<open>The state after a connection on \<^verbatim>\<open>/events/abc\<close> in the initial state.\<close>

definition after_connect_abc :: world where
  "after_connect_abc = snd (sseMiddleware request_abc 7 0 initial_world)"

text \<open>A request to \<^verbatim>\<open>/create/token\<close> whose body has no \<^verbatim>\<open>name\<close>, and an SDK none of
  whose calls throws.\<close>

definition request_without_name :: CreateTokenRequest where
  "request_without_name =
     \<lparr>token_name = None, token_uri = Some ''https://example.org/t.json'',
      symbol = Some ''TKN'', publicKey = Some ''pk''\<rparr>"

definition sdk_succeeds :: token_sdk where
  "sdk_succeeds = \<lparr>token_connect = None, token_build = None, token_finalize = None\<rparr>"

text \<open>Three streams registered one after the other, each with a response object of its
  own.\<close>

definition world_ABC :: world where
  "world_ABC =
     addClient \<lparr>id' = ''C'', response = 3\<rparr>
       (addClient \<lparr>id' = ''B'', response = 2\<rparr>
         (addClient \<lparr>id' = ''A'', response = 1\<rparr> initial_world))"


section \<open>Facts about the map, the response handle and the registry\<close>

lemma body_append: "body (xs @ ys) = body xs @ body ys"
  by (induction xs rule: body.induct) simp_all

lemma Map_get_None_iff: "Map_get m k = None \<longleftrightarrow> k \<notin> set (map fst m)"
  by (induction m) (auto split: if_splits simp: image_iff)

lemma Map_get_Map_set: "Map_get (Map_set k v m) k' = (if k' = k then Some v else Map_get m k')"
  by (induction m) auto

lemma keys_Map_set:
  "map fst (Map_set k v m) = (if k \<in> set (map fst m) then map fst m else map fst m @ [k])"
  by (induction m) (auto split: if_splits simp: image_iff)

lemma distinct_Map_set: "distinct (map fst m) \<Longrightarrow> distinct (map fst (Map_set k v m))"
  by (simp add: keys_Map_set)

lemma filter_absent: "k \<notin> set (map fst m) \<Longrightarrow> filter (\<lambda>e. fst e = k) m = []"
  by (induction m) auto

lemma filter_Map_set:
  "distinct (map fst m) \<Longrightarrow> filter (\<lambda>e. fst e = k) (Map_set k v m) = [(k, v)]"
  by (induction m) (auto simp: filter_absent)

lemma keys_Map_delete: "map fst (Map_delete k m) = remove1 k (map fst m)"
  by (induction m) auto

lemma distinct_Map_delete: "distinct (map fst m) \<Longrightarrow> distinct (map fst (Map_delete k m))"
  by (simp add: keys_Map_delete)

lemma Map_get_Map_delete:
  "distinct (map fst m) \<Longrightarrow> Map_get (Map_delete k m) k = None"
  by (simp add: Map_get_None_iff keys_Map_delete)

lemma clients_on_response: "clients (snd (on_response h f w)) = clients w"
  by (simp add: on_response_def split: sum.splits)

lemma closeListeners_on_response: "closeListeners (snd (on_response h f w)) = closeListeners w"
  by (simp add: on_response_def split: sum.splits)

lemma clients_seq:
  "(\<And>f w. f \<in> set fs \<Longrightarrow> clients (snd (f w)) = clients w) \<Longrightarrow> clients (snd (seq fs w)) = clients w"
proof (induction fs arbitrary: w)
  case Nil
  show ?case by simp
next
  case (Cons f fs)
  have step: "clients (snd (f w)) = clients w" using Cons.prems by simp
  show ?case
  proof (cases "f w")
    case (Pair r w')
    with step have w': "clients w' = clients w" by simp
    show ?thesis
    proof (cases r)
      case (Inl e)
      with Pair w' show ?thesis by simp
    next
      case (Inr u)
      have "clients (snd (seq fs w')) = clients w'" using Cons.prems by (intro Cons.IH) simp
      with Pair Inr w' show ?thesis by simp
    qed
  qed
qed

lemma clients_sendToClient: "clients (snd (sendToClient clientId d w)) = clients w"
  by (simp add: sendToClient_def clients_on_response split: option.splits)

lemma clients_broadcast: "clients (snd (broadcast d w)) = clients w"
  unfolding broadcast_def by (rule clients_seq) (auto simp: clients_on_response)

lemma sendToClient_absent:
  "Map_get (clients w) clientId = None \<Longrightarrow> sendToClient clientId d w = (Inr (), w)"
  by (simp add: sendToClient_def)


lemma res_write_accepts:
  "\<not> writeRaises r \<Longrightarrow>
     res_write s r = Inr ((flushHeaders r)\<lparr>sent := sent (flushHeaders r) @ [Chunk s]\<rparr>)"
  by (simp add: res_write_def)

lemma res_write_Inr:
  assumes "res_write s r = Inr r'"
  shows "body (sent r') = body (sent r) @ [s]" and "writeRaises r' = writeRaises r"
    and "headersSent r'" and "headersSent r \<Longrightarrow> sent r' = sent r @ [Chunk s]"
    and "\<not> writeRaises r"
  using assms by (auto simp: res_write_def flushHeaders_def body_append split: if_splits)

lemma sendToClient_registered:
  assumes "Map_get (clients w) clientId = Some client"
    and "\<not> writeRaises (responses w (response client))"
  shows "fst (sendToClient clientId d w) = Inr ()"
    and "body (sent (responses (snd (sendToClient clientId d w)) (response client)))
           = body (sent (responses w (response client))) @ [frame d]"
    and "headersSent (responses w (response client)) \<Longrightarrow>
         sent (responses (snd (sendToClient clientId d w)) (response client))
           = sent (responses w (response client)) @ [Chunk (frame d)]"
    and "\<not> writeRaises (responses (snd (sendToClient clientId d w)) (response client))"
    and "headersSent (responses (snd (sendToClient clientId d w)) (response client))"
  using assms
  by (simp_all add: sendToClient_def on_response_def res_write_def flushHeaders_def body_append)

lemma sendToClient_others:
  assumes "Map_get (clients w) clientId = Some client" and "h \<noteq> response client"
  shows "responses (snd (sendToClient clientId d w)) h = responses w h"
  using assms by (simp add: sendToClient_def on_response_def split: sum.splits)

lemma closeListeners_sendToClient:
  "closeListeners (snd (sendToClient clientId d w)) = closeListeners w"
  by (simp add: sendToClient_def closeListeners_on_response split: option.splits)


lemma on_response_write:
  assumes "\<not> writeRaises (responses w h)"
  shows "fst (on_response h (res_write s) w) = Inr ()"
    and "clients (snd (on_response h (res_write s) w)) = clients w"
    and "body (sent (responses (snd (on_response h (res_write s) w)) h'))
           = body (sent (responses w h')) @ (if h' = h then [s] else [])"
    and "h' \<noteq> h \<Longrightarrow> responses (snd (on_response h (res_write s) w)) h' = responses w h'"
    and "writeRaises (responses (snd (on_response h (res_write s) w)) h')
           = writeRaises (responses w h')"
  using assms
  by (simp_all add: on_response_def res_write_def flushHeaders_def body_append)

lemma forEach_writes:
  assumes "\<forall>client \<in> set cs. \<not> writeRaises (responses w (response client))"
  shows "fst (seq (map (\<lambda>client. on_response (response client) (res_write s)) cs) w) = Inr ()
    \<and> (\<forall>h. body (sent (responses
             (snd (seq (map (\<lambda>client. on_response (response client) (res_write s)) cs) w)) h))
           = body (sent (responses w h)) @ replicate (count_list (map response cs) h) s)
    \<and> (\<forall>h. h \<notin> set (map response cs) \<longrightarrow>
          responses (snd (seq (map (\<lambda>client. on_response (response client) (res_write s)) cs) w)) h
            = responses w h)"
  using assms
proof (induction cs arbitrary: w)
  case Nil
  show ?case by simp
next
  case (Cons c cs)
  let ?f = "on_response (response c) (res_write s)"
  obtain r w' where fw: "?f w = (r, w')" by (cases "?f w")
  have ok: "\<not> writeRaises (responses w (response c))" using Cons.prems by simp
  have r: "r = Inr ()" using on_response_write(1) [OF ok, of s] fw by simp
  have w': "w' = snd (?f w)" using fw by simp
  have raises: "writeRaises (responses w' h) = writeRaises (responses w h)" for h
    unfolding w' using on_response_write(5) [OF ok] .
  have bodies: "body (sent (responses w' h))
      = body (sent (responses w h)) @ (if h = response c then [s] else [])" for h
    unfolding w' using on_response_write(3) [OF ok] .
  have same: "h \<noteq> response c \<Longrightarrow> responses w' h = responses w h" for h
    unfolding w' using on_response_write(4) [OF ok] .
  have "\<forall>client \<in> set cs. \<not> writeRaises (responses w' (response client))"
    using Cons.prems by (simp add: raises)
  note IH = Cons.IH [OF this]
  have unfold: "seq (map (\<lambda>client. on_response (response client) (res_write s)) (c # cs)) w
      = seq (map (\<lambda>client. on_response (response client) (res_write s)) cs) w'"
    using fw r by simp
  show ?case
    unfolding unfold using IH by (auto simp: bodies same replicate_app_Cons_same)
qed

lemma broadcast_as_forEach:
  "broadcast d w
     = seq (map (\<lambda>client. on_response (response client) (res_write (frame d)))
             (map snd (clients w))) w"
  by (simp add: broadcast_def comp_def case_prod_unfold)

lemma publish_step:
  assumes "Map_get (clients w) clientId = Some client"
    and "\<not> writeRaises (responses w (response client))"
    and "sendProgressUpdate clientId e w = (r, w')"
  shows "r = Inr ()"
    and "Map_get (clients w') clientId = Some client"
    and "\<not> writeRaises (responses w' (response client))"
    and "body (sent (responses w' (response client)))
           = body (sent (responses w (response client))) @ [frame (ProgressUpdate_json e)]"
proof -
  let ?d = "ProgressUpdate_json e"
  have fw: "sendToClient clientId ?d w = (r, w')"
    using assms(3) by (simp add: sendProgressUpdate_def)
  note reg = sendToClient_registered [OF assms(1,2), of ?d]
  show "r = Inr ()" using reg(1) fw by simp
  show "Map_get (clients w') clientId = Some client"
    using clients_sendToClient [of clientId ?d w] fw assms(1) by simp
  show "\<not> writeRaises (responses w' (response client))" using reg(4) fw by simp
  show "body (sent (responses w' (response client)))
      = body (sent (responses w (response client))) @ [frame ?d]"
    using reg(2) fw by simp
qed

lemma publish_in_order:
  assumes "Map_get (clients w) clientId = Some client"
    and "\<not> writeRaises (responses w (response client))"
  shows "fst (seq (map (sendProgressUpdate clientId) es) w) = Inr ()
    \<and> body (sent (responses (snd (seq (map (sendProgressUpdate clientId) es) w)) (response client)))
        = body (sent (responses w (response client)))
          @ map (\<lambda>e. frame (ProgressUpdate_json e)) es"
  using assms
proof (induction es arbitrary: w)
  case Nil
  show ?case by simp
next
  case (Cons e es)
  obtain r w' where fw: "sendProgressUpdate clientId e w = (r, w')"
    by (cases "sendProgressUpdate clientId e w")
  note st = publish_step [OF Cons.prems fw]
  have unfold: "seq (map (sendProgressUpdate clientId) (e # es)) w
      = seq (map (sendProgressUpdate clientId) es) w'"
    using fw st(1) by simp
  show ?case unfolding unfold using Cons.IH [OF st(2,3)] by (simp add: st(4))
qed


subsection \<open>Identifiers, JSON text and the streaming endpoint\<close>

lemma escape_char_plain:
  "c \<noteq> CHR 0x22 \<Longrightarrow> c \<noteq> CHR 0x5C \<Longrightarrow> 32 \<le> (of_char c :: nat) \<Longrightarrow> escape_char c = [c]"
  by (auto simp: escape_char_def)

lemma concat_escape_plain: "plain s \<Longrightarrow> concat (map escape_char s) = s"
  by (induction s) (simp_all add: plain_def escape_char_plain)

lemma quote_plain: "plain s \<Longrightarrow> quote s = CHR 0x22 # s @ [CHR 0x22]"
  by (simp add: quote_def concat_escape_plain)

lemma quote_type: "quote ''type'' = [CHR 0x22] @ ''type'' @ [CHR 0x22]"
  by (simp add: quote_plain plain_def)

lemma quote_connected: "quote ''connected'' = [CHR 0x22] @ ''connected'' @ [CHR 0x22]"
  by (simp add: quote_plain plain_def)

lemma quote_clientId: "quote ''clientId'' = [CHR 0x22] @ ''clientId'' @ [CHR 0x22]"
  by (simp add: quote_plain plain_def)

lemma frame_connected:
  \<open>frame (connected clientId)
     = ''data: {"type":"connected","clientId":'' @ quote clientId @ ''}'' @ [CHR 0x0A, CHR 0x0A]\<close>
  by (simp add: frame_def connected_def quote_type quote_connected quote_clientId)

lemma digit_char_digit: "n < 10 \<Longrightarrow> digit_char n \<in> set ''0123456789''"
  unfolding digit_char_def by (rule nth_mem) simp

lemma digit_char_value: "n < 10 \<Longrightarrow> int (of_char (digit_char n)) - 48 = int n"
proof -
  assume "n < 10"
  then have "n \<in> {0, 1, 2, 3, 4, 5, 6, 7, 8, 9}" by auto
  then show ?thesis by (auto simp: digit_char_def)
qed

lemma nat_toString_digits: "c \<in> set (nat_toString n) \<Longrightarrow> c \<in> set ''0123456789''"
proof (induction n arbitrary: c rule: nat_toString.induct)
  case (1 n)
  show ?case
  proof (cases "n < 10")
    case True
    with "1.prems" have "c = digit_char n" by (simp add: nat_toString.simps [of n])
    with True show ?thesis using digit_char_digit by blast
  next
    case False
    with "1.prems" have "c \<in> set (nat_toString (n div 10)) \<or> c = digit_char (n mod 10)"
      by (auto simp: nat_toString.simps [of n])
    then show ?thesis
    proof
      assume "c \<in> set (nat_toString (n div 10))"
      with False show ?thesis using "1.IH" by blast
    next
      assume "c = digit_char (n mod 10)"
      moreover have "n mod 10 < 10" by simp
      ultimately show ?thesis using digit_char_digit by blast
    qed
  qed
qed

lemma nat_toString_nonempty: "nat_toString n \<noteq> []"
  by (simp add: nat_toString.simps [of n])

lemma nat_toString_value: "decimal_value (nat_toString n) = int n"
proof (induction n rule: nat_toString.induct)
  case (1 n)
  show ?case
  proof (cases "n < 10")
    case True
    then show ?thesis
      by (simp add: nat_toString.simps [of n] decimal_value_def digit_char_value)
  next
    case False
    have "decimal_value (nat_toString n)
        = 10 * decimal_value (nat_toString (n div 10)) + (int (of_char (digit_char (n mod 10))) - 48)"
      using False by (simp add: nat_toString.simps [of n] decimal_value_def)
    also have "\<dots> = 10 * int (n div 10) + int (n mod 10)"
      using False by (simp add: "1.IH" digit_char_value)
    also have "\<dots> = int n" by presburger
    finally show ?thesis .
  qed
qed

lemma nat_toString_plain: "plain (nat_toString n)"
proof -
  have "c \<noteq> CHR 0x22 \<and> c \<noteq> CHR 0x5C \<and> 32 \<le> (of_char c :: nat)" if "c \<in> set (nat_toString n)" for c
    using nat_toString_digits [OF that] by auto
  then show ?thesis by (simp add: plain_def list_all_iff)
qed

lemma sseMiddleware_established:
  assumes "\<not> headersSent (responses w res)" and "\<not> writeRaises (responses w res)"
  shows "sseMiddleware req res now w =
    (Inr (),
     \<lparr>clients = Map_set (resolve_clientId req now)
                  \<lparr>id' = resolve_clientId req now, response = res\<rparr> (clients w),
      responses = (responses w)(res := (responses w res)
        \<lparr>headers := Map_set ''Connection'' ''keep-alive''
                      (Map_set ''Cache-Control'' ''no-cache''
                        (Map_set ''Content-Type'' ''text/event-stream'' (headers (responses w res)))),
         headersSent := True,
         sent := sent (responses w res)
           @ [HeaderBlock (Map_set ''Connection'' ''keep-alive''
                            (Map_set ''Cache-Control'' ''no-cache''
                              (Map_set ''Content-Type'' ''text/event-stream''
                                (headers (responses w res))))),
              Chunk (frame (connected (resolve_clientId req now)))]\<rparr>),
      closeListeners = (closeListeners w)
        (conn req := closeListeners w (conn req) @ [RemoveClient (resolve_clientId req now)])\<rparr>)"
  using assms
  by (simp add: sseMiddleware_def Let_def on_response_def setHeader_def flushHeaders_def
      res_write_def pure_def addClient_def req_on_close_def)


lemma resolve_clientId_given:
  "params_clientId req = Some s \<Longrightarrow> s \<noteq> [] \<Longrightarrow> resolve_clientId req now = s"
  by (simp add: resolve_clientId_def)

lemma resolve_clientId_synthesized:
  "falsy (params_clientId req) \<Longrightarrow> resolve_clientId req now = toString now"
  by (auto simp: resolve_clientId_def falsy_def)

lemma sse_headers:
  "Map_get (Map_set ''Connection'' ''keep-alive''
     (Map_set ''Cache-Control'' ''no-cache'' (Map_set ''Content-Type'' ''text/event-stream'' hs)))
     ''Content-Type'' = Some ''text/event-stream''"
  "Map_get (Map_set ''Connection'' ''keep-alive''
     (Map_set ''Cache-Control'' ''no-cache'' (Map_set ''Content-Type'' ''text/event-stream'' hs)))
     ''Cache-Control'' = Some ''no-cache''"
  "Map_get (Map_set ''Connection'' ''keep-alive''
     (Map_set ''Cache-Control'' ''no-cache'' (Map_set ''Content-Type'' ''text/event-stream'' hs)))
     ''Connection'' = Some ''keep-alive''"
  by (simp_all add: Map_get_Map_set)

lemma established_facts:
  assumes "\<not> headersSent (responses w res)" and "\<not> writeRaises (responses w res)"
    and "sseMiddleware req res now w = (r, w1)"
  shows "r = Inr ()"
    and "clients w1 = Map_set (resolve_clientId req now)
           \<lparr>id' = resolve_clientId req now, response = res\<rparr> (clients w)"
    and "Map_get (clients w1) (resolve_clientId req now)
           = Some \<lparr>id' = resolve_clientId req now, response = res\<rparr>"
    and "\<not> writeRaises (responses w1 res)" and "headersSent (responses w1 res)"
    and "sent (responses w1 res) = sent (responses w res)
           @ [HeaderBlock (Map_set ''Connection'' ''keep-alive''
                            (Map_set ''Cache-Control'' ''no-cache''
                              (Map_set ''Content-Type'' ''text/event-stream''
                                (headers (responses w res))))),
              Chunk (frame (connected (resolve_clientId req now)))]"
    and "closeListeners w1 (conn req)
           = closeListeners w (conn req) @ [RemoveClient (resolve_clientId req now)]"
  using assms(2,3) unfolding sseMiddleware_established [OF assms(1,2)]
  by (auto simp: Map_get_Map_set)


subsection \<open>What the events of a run preserve\<close>

lemma seq_preserves:
  assumes "\<And>f w. f \<in> set fs \<Longrightarrow> P w \<Longrightarrow> P (snd (f w))" and "P w"
  shows "P (snd (seq fs w))"
  using assms
proof (induction fs arbitrary: w)
  case Nil
  then show ?case by simp
next
  case (Cons f fs)
  obtain r w' where fw: "f w = (r, w')" by (cases "f w")
  have P': "P w'" using Cons.prems(1) [of f w] Cons.prems(2) fw by simp
  show ?case
  proof (cases r)
    case (Inl e)
    with fw P' show ?thesis by simp
  next
    case (Inr u)
    have "P (snd (seq fs w'))" using Cons.prems(1) P' by (intro Cons.IH) simp_all
    with fw Inr show ?thesis by simp
  qed
qed

lemma on_response_frame:
  "clients (snd (on_response h f w)) = clients w"
  "closeListeners (snd (on_response h f w)) = closeListeners w"
  by (simp_all add: on_response_def split: sum.splits)

lemma sseMiddleware_distinct:
  assumes "distinct (map fst (clients w))"
  shows "distinct (map fst (clients (snd (sseMiddleware req res now w))))"
  unfolding sseMiddleware_def Let_def
proof (rule seq_preserves [where P = "\<lambda>w. distinct (map fst (clients w))"])
  show "distinct (map fst (clients w))" by (rule assms)
next
  fix f and w' :: world
  assume "f \<in> set
      [on_response res (setHeader ''Content-Type'' ''text/event-stream''),
       on_response res (setHeader ''Cache-Control'' ''no-cache''),
       on_response res (setHeader ''Connection'' ''keep-alive''),
       on_response res (\<lambda>r. Inr (flushHeaders r)),
       pure (addClient \<lparr>id' = resolve_clientId req now, response = res\<rparr>),
       on_response res (res_write (frame (connected (resolve_clientId req now)))),
       pure (req_on_close (conn req) (RemoveClient (resolve_clientId req now)))]"
    and "distinct (map fst (clients w'))"
  then show "distinct (map fst (clients (snd (f w'))))"
    by (auto simp: on_response_frame pure_def addClient_def req_on_close_def distinct_Map_set)
qed

lemma sseMiddleware_listeners:
  assumes "l \<in> set (closeListeners w c)"
  shows "l \<in> set (closeListeners (snd (sseMiddleware req res now w)) c)"
  unfolding sseMiddleware_def Let_def
proof (rule seq_preserves [where P = "\<lambda>w. l \<in> set (closeListeners w c)"])
  show "l \<in> set (closeListeners w c)" by (rule assms)
next
  fix f and w' :: world
  assume "f \<in> set
      [on_response res (setHeader ''Content-Type'' ''text/event-stream''),
       on_response res (setHeader ''Cache-Control'' ''no-cache''),
       on_response res (setHeader ''Connection'' ''keep-alive''),
       on_response res (\<lambda>r. Inr (flushHeaders r)),
       pure (addClient \<lparr>id' = resolve_clientId req now, response = res\<rparr>),
       on_response res (res_write (frame (connected (resolve_clientId req now)))),
       pure (req_on_close (conn req) (RemoveClient (resolve_clientId req now)))]"
    and "l \<in> set (closeListeners w' c)"
  then show "l \<in> set (closeListeners (snd (f w')) c)"
    by (auto simp: on_response_frame pure_def addClient_def req_on_close_def)
qed

lemma sseMiddleware_returns_listener:
  assumes "sseMiddleware req res now w = (Inr (), w1)"
  shows "RemoveClient (resolve_clientId req now) \<in> set (closeListeners w1 (conn req))"
  using assms
  by (auto simp: sseMiddleware_def Let_def on_response_def pure_def req_on_close_def
      split: sum.splits)

lemma run_listener_frame:
  "closeListeners (run_listener l w) = closeListeners w"
  "responses (run_listener l w) = responses w"
  "map fst (clients (run_listener l w))
     = (case l of RemoveClient c \<Rightarrow> remove1 c (map fst (clients w)))"
  by (cases l; simp add: removeClient_def keys_Map_delete)+

lemma fold_run_listener:
  "closeListeners (fold run_listener ls w) = closeListeners w
   \<and> set (map fst (clients (fold run_listener ls w))) \<subseteq> set (map fst (clients w))
   \<and> (distinct (map fst (clients w)) \<longrightarrow> distinct (map fst (clients (fold run_listener ls w))))"
proof (induction ls arbitrary: w)
  case Nil
  show ?case by simp
next
  case (Cons l ls)
  have sub: "set (map fst (clients (run_listener l w))) \<subseteq> set (map fst (clients w))"
    unfolding run_listener_frame(3)
    using set_remove1_subset [of _ "map fst (clients w)"] by (cases l) auto
  have dist: "distinct (map fst (clients w)) \<Longrightarrow> distinct (map fst (clients (run_listener l w)))"
    unfolding run_listener_frame(3) by (cases l) simp
  from Cons.IH [of "run_listener l w"] sub dist show ?case
    by (simp add: run_listener_frame(1)) blast
qed

lemma fold_run_listener_removes:
  assumes "distinct (map fst (clients w))" and "RemoveClient c \<in> set ls"
  shows "c \<notin> set (map fst (clients (fold run_listener ls w)))"
  using assms
proof (induction ls arbitrary: w)
  case Nil
  then show ?case by simp
next
  case (Cons l ls)
  have dist: "distinct (map fst (clients (run_listener l w)))"
    using Cons.prems(1) unfolding run_listener_frame(3) by (cases l) simp
  show ?case
  proof (cases "l = RemoveClient c")
    case True
    have "c \<notin> set (map fst (clients (run_listener l w)))"
      using Cons.prems(1) by (simp add: True removeClient_def keys_Map_delete)
    then show ?thesis using fold_run_listener [of ls "run_listener l w"] by auto
  next
    case False
    with Cons.prems(2) have "RemoveClient c \<in> set ls" by simp
    from Cons.IH [OF dist this] show ?thesis by simp
  qed
qed

lemma emit_close_frame:
  "closeListeners (emit_close c w) = closeListeners w"
  "distinct (map fst (clients w)) \<Longrightarrow> distinct (map fst (clients (emit_close c w)))"
  using fold_run_listener [of "closeListeners w c" w] by (simp_all add: emit_close_def)

lemma closeListeners_broadcast: "closeListeners (snd (broadcast d w)) = closeListeners w"
  unfolding broadcast_def
  by (rule seq_preserves [where P = "\<lambda>w'. closeListeners w' = closeListeners w"])
    (auto simp: on_response_frame)

lemma apply_event_invariants:
  "distinct (map fst (clients w)) \<Longrightarrow> distinct (map fst (clients (apply_event e w)))"
  "l \<in> set (closeListeners w c) \<Longrightarrow> l \<in> set (closeListeners (apply_event e w) c)"
  by (cases e; simp add: sseMiddleware_distinct sseMiddleware_listeners emit_close_frame
        clients_sendToClient clients_broadcast closeListeners_sendToClient
        closeListeners_broadcast)+

lemma fold_apply_event_invariants:
  "distinct (map fst (clients w)) \<Longrightarrow> distinct (map fst (clients (fold apply_event evs w)))"
  "l \<in> set (closeListeners w c) \<Longrightarrow> l \<in> set (closeListeners (fold apply_event evs w) c)"
  by (induction evs arbitrary: w) (simp_all add: apply_event_invariants)

lemma after_connect_abc_eq:
  "sseMiddleware request_abc 7 0 initial_world = (Inr (), after_connect_abc)"
proof -
  have "\<not> headersSent (responses initial_world 7)" "\<not> writeRaises (responses initial_world 7)"
    by (simp_all add: initial_world_def fresh_response_def)
  from established_facts(1) [OF this, of request_abc 0 _ after_connect_abc]
  show ?thesis by (simp add: after_connect_abc_def prod_eq_iff)
qed

lemma after_connect_abc_clients:
  "clients after_connect_abc = [(''abc'', \<lparr>id' = ''abc'', response = 7\<rparr>)]"
  "closeListeners after_connect_abc 0 = [RemoveClient ''abc'']"
  "writeRaises (responses after_connect_abc 7) = False"
proof -
  have fresh: "\<not> headersSent (responses initial_world 7)" "\<not> writeRaises (responses initial_world 7)"
    by (simp_all add: initial_world_def fresh_response_def)
  have id: "resolve_clientId request_abc 0 = ''abc''"
    by (simp add: resolve_clientId_def request_abc_def)
  note est = established_facts [OF fresh after_connect_abc_eq, unfolded id]
  show "clients after_connect_abc = [(''abc'', \<lparr>id' = ''abc'', response = 7\<rparr>)]"
    using est(2) by (simp add: initial_world_def)
  show "closeListeners after_connect_abc 0 = [RemoveClient ''abc'']"
    using est(7) by (simp add: initial_world_def request_abc_def)
  show "writeRaises (responses after_connect_abc 7) = False" using est(4) by simp
qed











subsection \<open>Terminal events of the handlers\<close>

lemma exec_block_Emit:
  "exec_block (Emit u # ss) = (case exec_block ss of (evs, c) \<Rightarrow> (u # evs, c))"
  by simp

lemma exec_block_Return: "exec_block (Return n # ss) = ([], Returned n)"
  by simp

lemma exec_block_Call:
  "exec_block (Call x # ss) = (case x of None \<Rightarrow> exec_block ss | Some m \<Rightarrow> ([], Thrown m))"
  by (cases x) (simp_all split: prod.splits)

lemma exec_block_If:
  "exec_block (If b bs # ss)
     = (if b then (case exec_block bs of
                     (evs, Normal) \<Rightarrow> (case exec_block ss of (evs', c) \<Rightarrow> (evs @ evs', c))
                   | (evs, c) \<Rightarrow> (evs, c))
        else exec_block ss)"
  by (simp split: prod.splits)

lemmas exec_block_steps = exec_block_Emit exec_block_Return exec_block_Call exec_block_If

lemma check_sound: "check k ss \<Longrightarrow> one_terminal k (exec_block ss)"
proof (induction k ss rule: check.induct)
  case (1 k)
  then show ?case by simp
next
  case (2 k u ss)
  then show ?case
    by (auto simp: exec_block_Emit one_terminal_def terminal_count_def
        simp del: exec_block.simps(2) split: prod.splits completion.splits)
next
  case (3 k x ss)
  then show ?case
    by (auto simp: exec_block_Call one_terminal_def terminal_count_def
        simp del: exec_block.simps(2) split: option.splits completion.splits)
next
  case (4 k b bs ss)
  show ?case
  proof (cases b)
    case True
    with "4.prems" have "check k bs" by simp
    with True have "one_terminal k (exec_block bs)" by (rule "4.IH"(1))
    with True show ?thesis
      by (auto simp: exec_block_If one_terminal_def simp del: exec_block.simps(2)
          split: prod.splits completion.splits)
  next
    case False
    with "4.prems" have "check k ss" by simp
    with False have "one_terminal k (exec_block ss)" by (rule "4.IH"(2))
    with False show ?thesis by (simp add: exec_block_If del: exec_block.simps(2))
  qed
next
  case (5 k n ss)
  then show ?case by (simp add: one_terminal_def terminal_count_def)
qed

lemma try_catch_one_terminal:
  assumes "check 0 block"
    and "\<And>m. \<exists>u n. terminal u \<and> exec_block (handler m) = ([u], Returned n)"
  shows "terminal_count (fst (try_catch block handler)) = 1"
proof -
  obtain evs c where ex: "exec_block block = (evs, c)" by (cases "exec_block block")
  from check_sound [OF assms(1)] ex have one: "one_terminal 0 (evs, c)" by simp
  show ?thesis
  proof (cases c)
    case Normal
    with one show ?thesis by (simp add: one_terminal_def)
  next
    case (Returned n)
    with one ex show ?thesis by (simp add: one_terminal_def try_catch_def)
  next
    case (Thrown m)
    obtain u n where "terminal u" and "exec_block (handler m) = ([u], Returned n)"
      using assms(2) by blast
    moreover have "terminal_count evs = 0" using one Thrown by (simp add: one_terminal_def)
    ultimately show ?thesis using ex Thrown
      by (simp add: try_catch_def terminal_count_def)
  qed
qed

lemma terminal_events:
  "terminal (message_event t Started m) = False" "terminal (message_event t Error m) = True"
  "terminal (progress_event t st p m) = False" "terminal (completed_event t m) = True"
  by (simp_all add: terminal_def message_event_def progress_event_def completed_event_def)

lemma mintCollectionNFT_terminal_count:
  "terminal_count (fst (mintCollectionNFT b sdk)) = 1"
  unfolding mintCollectionNFT_def
  by (rule try_catch_one_terminal) (simp_all add: terminal_events)

lemma createToken_terminal_count:
  "terminal_count (fst (createToken b sdk))
     = (if falsy (token_name b) \<or> falsy (token_uri b) \<or> falsy (symbol b) \<or> falsy (publicKey b)
        then 0 else 1)"
proof (cases "falsy (token_name b) \<or> falsy (token_uri b) \<or> falsy (symbol b) \<or> falsy (publicKey b)")
  case True
  then have "createToken b sdk
      = ([message_event Token Started ''Preparing token creation transaction''], Returned 400)"
    by (simp add: createToken_def try_catch_def)
  with True show ?thesis by (simp add: terminal_count_def terminal_events)
next
  case False
  have "terminal_count (fst (createToken b sdk)) = 1"
    unfolding createToken_def
    by (rule try_catch_one_terminal) (use False in \<open>simp_all add: terminal_events\<close>)
  with False show ?thesis by simp
qed

lemma deployCollection_terminal_count:
  "terminal_count (fst (deployCollection b sdk))
     = (if falsy (collection_name b) \<or> falsy (collection_uri b) \<or> falsy (collection_privateKey b)
           \<or> collection_keypair_fails sdk
        then 0 else 1)"
proof (cases "falsy (collection_name b) \<or> falsy (collection_uri b)
    \<or> falsy (collection_privateKey b)")
  case True
  then have "fst (deployCollection b sdk)
      = [message_event Collection Started ''Starting collection deployment process'',
         progress_event Collection ''validation'' 20 ''Validating input parameters'']"
    by (simp add: deployCollection_def try_catch_def)
  with True show ?thesis by (auto simp: terminal_count_def terminal_events)
next
  case False
  show ?thesis
  proof (cases "collection_keypair_fails sdk")
    case True
    with False have "fst (deployCollection b sdk)
        = [message_event Collection Started ''Starting collection deployment process'',
           progress_event Collection ''validation'' 20 ''Validating input parameters'',
           progress_event Collection ''wallet_init'' 40 ''Initializing wallet'']"
      by (simp add: deployCollection_def try_catch_def)
    with True show ?thesis by (simp add: terminal_count_def terminal_events)
  next
    case nofail: False
    have "terminal_count (fst (deployCollection b sdk)) = 1"
      unfolding deployCollection_def
      by (rule try_catch_one_terminal) (use False nofail in \<open>simp_all add: terminal_events\<close>)
    with False nofail show ?thesis by simp
  qed
qed


section \<open>The claims\<close>

text \<open>
  C3 (replace on register). Registering \<open>X\<close> with \<open>h1\<close> and then with \<open>h2\<close>, in a
  registry whose keys are distinct as those of a \<^verbatim>\<open>Map\<close> are, leaves exactly one entry
  for \<open>X\<close>, and its handle is \<open>h2\<close>. A publish to \<open>X\<close> afterwards leaves every
  response object other than \<open>h2\<close> as it was, and when \<open>h2\<close> accepts the write it returns
  and adds the frame of the event, and nothing else, to the body of \<open>h2\<close>.
\<close>

theorem replace_on_register:
  assumes "distinct (map fst (clients w))"
    and "w2 = addClient \<lparr>id' = X, response = h2\<rparr> (addClient \<lparr>id' = X, response = h1\<rparr> w)"
  shows "filter (\<lambda>e. fst e = X) (clients w2) = [(X, \<lparr>id' = X, response = h2\<rparr>)]
    \<and> Map_get (clients w2) X = Some \<lparr>id' = X, response = h2\<rparr>
    \<and> (\<forall>h. h \<noteq> h2 \<longrightarrow> responses (snd (sendToClient X d w2)) h = responses w h)
    \<and> (\<not> writeRaises (responses w h2) \<longrightarrow>
          fst (sendToClient X d w2) = Inr ()
          \<and> body (sent (responses (snd (sendToClient X d w2)) h2))
              = body (sent (responses w h2)) @ [frame d])"
proof -
  let ?c2 = "\<lparr>id' = X, response = h2\<rparr>"
  have d1: "distinct (map fst (Map_set X \<lparr>id' = X, response = h1\<rparr> (clients w)))"
    using assms(1) by (rule distinct_Map_set)
  have cl: "clients w2 = Map_set X ?c2 (Map_set X \<lparr>id' = X, response = h1\<rparr> (clients w))"
    and rs: "responses w2 = responses w"
    by (simp_all add: assms(2) addClient_def)
  have one: "filter (\<lambda>e. fst e = X) (clients w2) = [(X, ?c2)]"
    unfolding cl using d1 by (rule filter_Map_set)
  have get: "Map_get (clients w2) X = Some ?c2"
    by (simp add: cl Map_get_Map_set)
  have others: "responses (snd (sendToClient X d w2)) h = responses w h" if "h \<noteq> h2" for h
    using sendToClient_others [OF get, of h d] that by (simp add: rs)
  have target: "fst (sendToClient X d w2) = Inr ()
      \<and> body (sent (responses (snd (sendToClient X d w2)) h2))
          = body (sent (responses w h2)) @ [frame d]"
    if "\<not> writeRaises (responses w h2)"
    using sendToClient_registered(1,2) [OF get, of d] that by (simp add: rs)
  from one get others target show ?thesis by blast
qed

theorem replace_on_register_witness:
  "distinct (map fst (clients initial_world))
   \<and> filter (\<lambda>e. fst e = ''X'')
        (clients (addClient \<lparr>id' = ''X'', response = 2\<rparr>
                   (addClient \<lparr>id' = ''X'', response = 1\<rparr> initial_world)))
      = [(''X'', \<lparr>id' = ''X'', response = 2\<rparr>)]
   \<and> \<not> writeRaises (responses initial_world 2)
   \<and> body (sent (responses (snd (sendToClient ''X'' JNull
        (addClient \<lparr>id' = ''X'', response = 2\<rparr>
          (addClient \<lparr>id' = ''X'', response = 1\<rparr> initial_world)))) 2))
      = [frame JNull]
   \<and> responses (snd (sendToClient ''X'' JNull
        (addClient \<lparr>id' = ''X'', response = 2\<rparr>
          (addClient \<lparr>id' = ''X'', response = 1\<rparr> initial_world)))) 1
      = fresh_response"
  using replace_on_register [of initial_world _ "''X''" 2 1 JNull, OF _ refl]
  by (simp add: initial_world_def fresh_response_def)

text \<open>
  C4 (no-op on unknown publish). When no stream is registered under the identifier,
  \<^verbatim>\<open>sendToClient\<close> returns without raising and the whole state is as before: nothing
  is written to any response object and every registration stands.
\<close>

theorem unknown_publish_noop:
  "Map_get (clients w) clientId = None \<Longrightarrow> sendToClient clientId d w = (Inr (), w)"
  by (rule sendToClient_absent)

theorem unknown_publish_noop_witness:
  "Map_get (clients (addClient \<lparr>id' = ''A'', response = 1\<rparr> initial_world)) ''unknown'' = None
   \<and> sendToClient ''unknown'' (ProgressUpdate_json token_started)
        (addClient \<lparr>id' = ''A'', response = 1\<rparr> initial_world)
      = (Inr (), addClient \<lparr>id' = ''A'', response = 1\<rparr> initial_world)"
  using unknown_publish_noop
    [of "addClient \<lparr>id' = ''A'', response = 1\<rparr> initial_world" "''unknown''"
        "ProgressUpdate_json token_started"]
  by (simp add: initial_world_def addClient_def)

text \<open>
  C10 (publishing never changes the registry). Whatever the state, the identifier and
  the event, the mapping of identifiers to clients is the same after \<^verbatim>\<open>sendToClient\<close>
  and after \<^verbatim>\<open>broadcast\<close> as before, whether the write was accepted or raised: a
  registration whose stream refuses writes stays.
\<close>

theorem registry_unchanged_by_publish:
  "clients (snd (sendToClient clientId d w)) = clients w
   \<and> clients (snd (broadcast d w)) = clients w"
  by (simp add: clients_sendToClient clients_broadcast)


text \<open>
  C5 (broadcast reaches all). In a registry holding exactly three registrations, whose
  response objects accept writes, \<^verbatim>\<open>broadcast\<close> returns without raising; the body of
  every response object grows by the frame of the event once for each of the three
  registrations that refers to it, that is, by one frame for a stream registered once
  and by nothing for a response object of no registration; and a response object of no
  registration is left exactly as it was.
\<close>

theorem broadcast_reaches_all:
  assumes "clients w = [(a, ca), (b, cb), (c, cc)]"
    and "\<not> writeRaises (responses w (response ca))"
    and "\<not> writeRaises (responses w (response cb))"
    and "\<not> writeRaises (responses w (response cc))"
  shows "fst (broadcast d w) = Inr ()
    \<and> (\<forall>h. body (sent (responses (snd (broadcast d w)) h))
           = body (sent (responses w h))
             @ replicate (count_list [response ca, response cb, response cc] h) (frame d))
    \<and> (\<forall>h. h \<notin> {response ca, response cb, response cc} \<longrightarrow>
          responses (snd (broadcast d w)) h = responses w h)"
proof -
  have "\<forall>client \<in> set (map snd (clients w)). \<not> writeRaises (responses w (response client))"
    using assms by simp
  from forEach_writes [OF this, of "frame d"] show ?thesis
    unfolding broadcast_as_forEach by (simp add: assms(1))
qed


theorem broadcast_reaches_all_witness:
  "clients world_ABC
     = [(''A'', \<lparr>id' = ''A'', response = 1\<rparr>), (''B'', \<lparr>id' = ''B'', response = 2\<rparr>),
        (''C'', \<lparr>id' = ''C'', response = 3\<rparr>)]
   \<and> \<not> writeRaises (responses world_ABC 1)
   \<and> \<not> writeRaises (responses world_ABC 2)
   \<and> \<not> writeRaises (responses world_ABC 3)
   \<and> fst (broadcast JNull world_ABC) = Inr ()
   \<and> body (sent (responses (snd (broadcast JNull world_ABC)) 1)) = [frame JNull]
   \<and> body (sent (responses (snd (broadcast JNull world_ABC)) 2)) = [frame JNull]
   \<and> body (sent (responses (snd (broadcast JNull world_ABC)) 3)) = [frame JNull]
   \<and> responses (snd (broadcast JNull world_ABC)) 4 = fresh_response"
  using broadcast_reaches_all
    [of world_ABC "''A''" "\<lparr>id' = ''A'', response = 1\<rparr>" "''B''" "\<lparr>id' = ''B'', response = 2\<rparr>"
        "''C''" "\<lparr>id' = ''C'', response = 3\<rparr>" JNull]
  by (simp add: world_ABC_def initial_world_def fresh_response_def addClient_def)

text \<open>
  C8 (order per identifier). When a stream is registered under the identifier and its
  response object accepts writes, three calls of \<^verbatim>\<open>sendProgressUpdate\<close> for that
  identifier, one after the other, all return without raising, and the body of the
  response object grows by exactly the three frames, in the order of the calls.
\<close>

theorem per_identifier_order:
  assumes "Map_get (clients w) clientId = Some client"
    and "\<not> writeRaises (responses w (response client))"
    and "sendProgressUpdate clientId e1 w = (r1, w1)"
    and "sendProgressUpdate clientId e2 w1 = (r2, w2)"
    and "sendProgressUpdate clientId e3 w2 = (r3, w3)"
  shows "r1 = Inr () \<and> r2 = Inr () \<and> r3 = Inr ()
    \<and> body (sent (responses w3 (response client)))
        = body (sent (responses w (response client)))
          @ [frame (ProgressUpdate_json e1), frame (ProgressUpdate_json e2),
             frame (ProgressUpdate_json e3)]"
proof -
  note s1 = publish_step [OF assms(1,2,3)]
  note s2 = publish_step [OF s1(2,3) assms(4)]
  note s3 = publish_step [OF s2(2,3) assms(5)]
  show ?thesis by (simp add: s1(1,4) s2(1,4) s3(1,4))
qed

theorem per_identifier_order_witness:
  "Map_get (clients world_ABC) ''B'' = Some \<lparr>id' = ''B'', response = 2\<rparr>
   \<and> \<not> writeRaises (responses world_ABC 2)
   \<and> body (sent (responses
        (snd (sendProgressUpdate ''B'' token_completed
          (snd (sendProgressUpdate ''B'' token_progress
            (snd (sendProgressUpdate ''B'' token_started world_ABC)))))) 2))
      = [frame (ProgressUpdate_json token_started), frame (ProgressUpdate_json token_progress),
         frame (ProgressUpdate_json token_completed)]"
  using per_identifier_order
    [of world_ABC "''B''" "\<lparr>id' = ''B'', response = 2\<rparr>" token_started
        "fst (sendProgressUpdate ''B'' token_started world_ABC)"
        "snd (sendProgressUpdate ''B'' token_started world_ABC)"
        token_progress
        "fst (sendProgressUpdate ''B'' token_progress
               (snd (sendProgressUpdate ''B'' token_started world_ABC)))"
        "snd (sendProgressUpdate ''B'' token_progress
               (snd (sendProgressUpdate ''B'' token_started world_ABC)))"
        token_completed
        "fst (sendProgressUpdate ''B'' token_completed
               (snd (sendProgressUpdate ''B'' token_progress
                 (snd (sendProgressUpdate ''B'' token_started world_ABC)))))"
        "snd (sendProgressUpdate ''B'' token_completed
               (snd (sendProgressUpdate ''B'' token_progress
                 (snd (sendProgressUpdate ''B'' token_started world_ABC)))))"]
  by (simp add: world_ABC_def initial_world_def fresh_response_def addClient_def)


text \<open>
  C6 (the streaming endpoint). A connection on a response object whose headers have not
  gone out and that accepts writes: the handler returns without raising; the resolved
  identifier is the route parameter when that is a non-empty string; what it puts on the
  wire is one header block, in which \<^verbatim>\<open>Content-Type\<close> is \<^verbatim>\<open>text/event-stream\<close>,
  \<^verbatim>\<open>Cache-Control\<close> is \<^verbatim>\<open>no-cache\<close> and \<^verbatim>\<open>Connection\<close> is \<^verbatim>\<open>keep-alive\<close>, and after
  it one chunk, the frame \<^verbatim>\<open>data: {"type":"connected","clientId":<id>}\<close> and two
  newlines, where \<^verbatim>\<open><id>\<close> is the identifier as JSON writes a string: between double
  quotes, and as it is when it has no double quote, backslash or control character. An
  event published to the identifier right after is one more chunk,
  \<^verbatim>\<open>data: \<close>, the JSON text of the event and two newlines; and so is, in the body of
  the registered response object, every event published to the identifier in any state
  where a stream that accepts writes is registered under it.
\<close>

theorem streaming_endpoint_frames:
  assumes "\<not> headersSent (responses w res)" and "\<not> writeRaises (responses w res)"
    and "sseMiddleware req res now w = (r, w1)"
    and "clientId = resolve_clientId req now"
  shows \<open>r = Inr ()
    \<and> (\<forall>s. params_clientId req = Some s \<and> s \<noteq> [] \<longrightarrow> clientId = s)
    \<and> (\<exists>hs. Map_get hs ''Content-Type'' = Some ''text/event-stream''
           \<and> Map_get hs ''Cache-Control'' = Some ''no-cache''
           \<and> Map_get hs ''Connection'' = Some ''keep-alive''
           \<and> sent (responses w1 res)
               = sent (responses w res)
                 @ [HeaderBlock hs,
                    Chunk (''data: {"type":"connected","clientId":'' @ quote clientId @ ''}''
                           @ [CHR 0x0A, CHR 0x0A])])
    \<and> (plain clientId \<longrightarrow> quote clientId = [CHR 0x22] @ clientId @ [CHR 0x22])
    \<and> (\<forall>u. fst (sendProgressUpdate clientId u w1) = Inr ()
           \<and> sent (responses (snd (sendProgressUpdate clientId u w1)) res)
               = sent (responses w1 res)
                 @ [Chunk (''data: '' @ JSON_stringify (ProgressUpdate_json u)
                           @ [CHR 0x0A, CHR 0x0A])])
    \<and> (\<forall>w' client u.
          Map_get (clients w') clientId = Some client
          \<and> \<not> writeRaises (responses w' (response client)) \<longrightarrow>
          fst (sendProgressUpdate clientId u w') = Inr ()
          \<and> body (sent (responses (snd (sendProgressUpdate clientId u w')) (response client)))
              = body (sent (responses w' (response client)))
                @ [''data: '' @ JSON_stringify (ProgressUpdate_json u) @ [CHR 0x0A, CHR 0x0A]])\<close>
proof -
  note est = established_facts [OF assms(1,2,3)]
  let ?c = "\<lparr>id' = clientId, response = res\<rparr>"
  have get: "Map_get (clients w1) clientId = Some ?c" using est(3) by (simp add: assms(4))
  have ok: "\<not> writeRaises (responses w1 (response ?c))" using est(4) by simp
  have hs: "headersSent (responses w1 (response ?c))" using est(5) by simp
  have given: "\<forall>s. params_clientId req = Some s \<and> s \<noteq> [] \<longrightarrow> clientId = s"
    by (simp add: assms(4) resolve_clientId_given)
  have wire: \<open>\<exists>hs. Map_get hs ''Content-Type'' = Some ''text/event-stream''
           \<and> Map_get hs ''Cache-Control'' = Some ''no-cache''
           \<and> Map_get hs ''Connection'' = Some ''keep-alive''
           \<and> sent (responses w1 res)
               = sent (responses w res)
                 @ [HeaderBlock hs,
                    Chunk (''data: {"type":"connected","clientId":'' @ quote clientId @ ''}''
                           @ [CHR 0x0A, CHR 0x0A])]\<close>
    using est(6) sse_headers [of "headers (responses w res)"]
    unfolding frame_connected assms(4) by blast
  have next_frame: "fst (sendProgressUpdate clientId u w1) = Inr ()
           \<and> sent (responses (snd (sendProgressUpdate clientId u w1)) res)
               = sent (responses w1 res)
                 @ [Chunk (''data: '' @ JSON_stringify (ProgressUpdate_json u)
                           @ [CHR 0x0A, CHR 0x0A])]" for u
    using sendToClient_registered(1) [OF get ok, of "ProgressUpdate_json u"]
      sendToClient_registered(3) [OF get ok hs, of "ProgressUpdate_json u"]
    by (simp add: sendProgressUpdate_def frame_def)
  have later: "fst (sendProgressUpdate clientId u w') = Inr ()
          \<and> body (sent (responses (snd (sendProgressUpdate clientId u w')) (response client)))
              = body (sent (responses w' (response client)))
                @ [''data: '' @ JSON_stringify (ProgressUpdate_json u) @ [CHR 0x0A, CHR 0x0A]]"
    if "Map_get (clients w') clientId = Some client"
      and "\<not> writeRaises (responses w' (response client))" for w' client u
    using sendToClient_registered(1,2) [OF that, of "ProgressUpdate_json u"]
    by (simp add: sendProgressUpdate_def frame_def)
  from est(1) given wire quote_plain next_frame later show ?thesis by simp
qed


theorem streaming_endpoint_frames_witness:
  \<open>\<not> headersSent (responses initial_world 7) \<and> \<not> writeRaises (responses initial_world 7)
   \<and> sent (responses (snd (sseMiddleware request_abc 7 0 initial_world)) 7)
       = [HeaderBlock [(''Content-Type'', ''text/event-stream''), (''Cache-Control'', ''no-cache''),
                       (''Connection'', ''keep-alive'')],
          Chunk (''data: {"type":"connected","clientId":"abc"}'' @ [CHR 0x0A, CHR 0x0A])]
   \<and> sent (responses (snd (sendProgressUpdate ''abc'' token_started
                (snd (sseMiddleware request_abc 7 0 initial_world)))) 7)
       = [HeaderBlock [(''Content-Type'', ''text/event-stream''), (''Cache-Control'', ''no-cache''),
                       (''Connection'', ''keep-alive'')],
          Chunk (''data: {"type":"connected","clientId":"abc"}'' @ [CHR 0x0A, CHR 0x0A]),
          Chunk (''data: {"type":"token","status":"started","message":"Preparing token creation transaction"}''
                 @ [CHR 0x0A, CHR 0x0A])]\<close>
proof -
  have fresh: "\<not> headersSent (responses initial_world 7)" "\<not> writeRaises (responses initial_world 7)"
    by (simp_all add: initial_world_def fresh_response_def)
  have id: "resolve_clientId request_abc 0 = ''abc''"
    by (simp add: resolve_clientId_def request_abc_def)
  have q: \<open>quote ''abc'' = ''"abc"''\<close> by (simp add: quote_plain plain_def)
  have j: \<open>JSON_stringify (ProgressUpdate_json token_started)
      = ''{"type":"token","status":"started","message":"Preparing token creation transaction"}''\<close>
    by (simp add: ProgressUpdate_json_def token_started_def message_event_def quote_plain plain_def)
  note inst = streaming_endpoint_frames [OF fresh, of request_abc 0
      "fst (sseMiddleware request_abc 7 0 initial_world)"
      "snd (sseMiddleware request_abc 7 0 initial_world)" "''abc''", unfolded id q]
  have first: "sent (responses (snd (sseMiddleware request_abc 7 0 initial_world)) 7)
       = [HeaderBlock [(''Content-Type'', ''text/event-stream''), (''Cache-Control'', ''no-cache''),
                       (''Connection'', ''keep-alive'')],
          Chunk (frame (connected ''abc''))]"
    using established_facts(6) [OF fresh, of request_abc 0 _ _, OF prod.collapse [symmetric]]
    by (simp add: id initial_world_def fresh_response_def)
  show ?thesis using inst fresh first by (simp add: j frame_connected q)
qed


text \<open>
  C9 (synthesized identifier). A connection whose route parameter is absent or empty, at
  a clock reading \<open>now\<close> that is not before the epoch, on a response object whose headers
  have not gone out and that accepts writes: the handler returns without raising; the
  identifier is \<^verbatim>\<open>now.toString()\<close>, a non-empty string of decimal digits that denotes
  \<open>now\<close>; the stream is registered under it; the first frame of the body is the
  \<^verbatim>\<open>connected\<close> frame carrying it; and an event published to that string is the next
  frame in the body of the same response object.
\<close>

theorem synthesized_identifier:
  assumes "falsy (params_clientId req)" and "0 \<le> now"
    and "\<not> headersSent (responses w res)" and "\<not> writeRaises (responses w res)"
    and "sseMiddleware req res now w = (r, w1)"
  shows \<open>r = Inr ()
    \<and> resolve_clientId req now = toString now
    \<and> toString now \<noteq> [] \<and> (\<forall>c \<in> set (toString now). c \<in> set ''0123456789'')
    \<and> decimal_value (toString now) = now
    \<and> Map_get (clients w1) (toString now) = Some \<lparr>id' = toString now, response = res\<rparr>
    \<and> body (sent (responses w1 res))
        = body (sent (responses w res))
          @ [''data: {"type":"connected","clientId":"'' @ toString now @ ''"}''
             @ [CHR 0x0A, CHR 0x0A]]
    \<and> (\<forall>u. fst (sendProgressUpdate (toString now) u w1) = Inr ()
           \<and> body (sent (responses (snd (sendProgressUpdate (toString now) u w1)) res))
               = body (sent (responses w1 res)) @ [frame (ProgressUpdate_json u)])\<close>
proof -
  note est = established_facts [OF assms(3,4,5)]
  have id: "resolve_clientId req now = toString now"
    using assms(1) by (rule resolve_clientId_synthesized)
  have str: "toString now = nat_toString (nat now)" using assms(2) by (simp add: toString_def)
  have nonempty: "toString now \<noteq> []" by (simp add: str nat_toString_nonempty)
  have digits: "\<forall>c \<in> set (toString now). c \<in> set ''0123456789''"
    unfolding str using nat_toString_digits by blast
  have val: "decimal_value (toString now) = now"
    using assms(2) by (simp add: str nat_toString_value)
  let ?c = "\<lparr>id' = toString now, response = res\<rparr>"
  have get: "Map_get (clients w1) (toString now) = Some ?c" using est(3) by (simp add: id)
  have ok: "\<not> writeRaises (responses w1 (response ?c))" using est(4) by simp
  have q: "quote (toString now) = [CHR 0x22] @ toString now @ [CHR 0x22]"
    by (simp add: str quote_plain nat_toString_plain)
  have first: \<open>body (sent (responses w1 res))
        = body (sent (responses w res))
          @ [''data: {"type":"connected","clientId":"'' @ toString now @ ''"}''
             @ [CHR 0x0A, CHR 0x0A]]\<close>
    by (simp add: est(6) id body_append frame_connected q)
  have reach: "fst (sendProgressUpdate (toString now) u w1) = Inr ()
           \<and> body (sent (responses (snd (sendProgressUpdate (toString now) u w1)) res))
               = body (sent (responses w1 res)) @ [frame (ProgressUpdate_json u)]" for u
    using sendToClient_registered(1,2) [OF get ok, of "ProgressUpdate_json u"]
    by (simp add: sendProgressUpdate_def)
  from est(1) id nonempty digits val get first reach show ?thesis by simp
qed

theorem synthesized_identifier_witness:
  \<open>falsy (params_clientId request_anonymous) \<and> (0::int) \<le> 1700000000000
   \<and> \<not> headersSent (responses initial_world 7) \<and> \<not> writeRaises (responses initial_world 7)
   \<and> toString 1700000000000 = ''1700000000000''
   \<and> Map_get (clients (snd (sseMiddleware request_anonymous 7 1700000000000 initial_world)))
        ''1700000000000'' = Some \<lparr>id' = ''1700000000000'', response = 7\<rparr>
   \<and> body (sent (responses (snd (sseMiddleware request_anonymous 7 1700000000000 initial_world)) 7))
       = [''data: {"type":"connected","clientId":"1700000000000"}'' @ [CHR 0x0A, CHR 0x0A]]
   \<and> body (sent (responses (snd (sendProgressUpdate ''1700000000000'' token_started
         (snd (sseMiddleware request_anonymous 7 1700000000000 initial_world)))) 7))
       = [''data: {"type":"connected","clientId":"1700000000000"}'' @ [CHR 0x0A, CHR 0x0A],
          frame (ProgressUpdate_json token_started)]\<close>
proof -
  have anon: "falsy (params_clientId request_anonymous)"
    by (simp add: falsy_def request_anonymous_def)
  have fresh: "\<not> headersSent (responses initial_world 7)" "\<not> writeRaises (responses initial_world 7)"
    by (simp_all add: initial_world_def fresh_response_def)
  have str: "toString 1700000000000 = ''1700000000000''"
    by (simp add: toString_def nat_toString.simps digit_char_def)
  have empty: "body (sent (responses initial_world 7)) = []"
    by (simp add: initial_world_def fresh_response_def)
  note inst = synthesized_identifier [OF anon _ fresh, of 1700000000000
      "fst (sseMiddleware request_anonymous 7 1700000000000 initial_world)"
      "snd (sseMiddleware request_anonymous 7 1700000000000 initial_world)", unfolded str empty]
  show ?thesis using inst anon fresh str by simp
qed


text \<open>
  C1 (cleanup on close). A connection was established: the handler returned, so the
  stream is registered under the resolved identifier and the close listener is attached
  to the request. Whatever happens afterwards (connections, close notifications,
  publishes, broadcasts, in any number and order), once the close notification of that
  request has fired the identifier is not a key of the registry, and a publish to it
  returns without raising and leaves the whole state as it was: nothing is written.
\<close>

theorem cleanup_on_close:
  assumes "distinct (map fst (clients w))"
    and "sseMiddleware req res now w = (Inr (), w1)"
    and "clientId = resolve_clientId req now"
    and "w3 = emit_close (conn req) (fold apply_event evs w1)"
  shows "clientId \<notin> set (map fst (clients w3))
    \<and> Map_get (clients w3) clientId = None
    \<and> sendToClient clientId d w3 = (Inr (), w3)"
proof -
  let ?w2 = "fold apply_event evs w1"
  have "w1 = snd (sseMiddleware req res now w)" using assms(2) by simp
  then have "distinct (map fst (clients w1))" using assms(1) by (simp add: sseMiddleware_distinct)
  then have dist: "distinct (map fst (clients ?w2))" by (rule fold_apply_event_invariants(1))
  have "RemoveClient clientId \<in> set (closeListeners w1 (conn req))"
    unfolding assms(3) using assms(2) by (rule sseMiddleware_returns_listener)
  then have "RemoveClient clientId \<in> set (closeListeners ?w2 (conn req))"
    by (rule fold_apply_event_invariants(2))
  with dist have absent: "clientId \<notin> set (map fst (clients w3))"
    unfolding assms(4) emit_close_def by (rule fold_run_listener_removes)
  then have none: "Map_get (clients w3) clientId = None" by (simp add: Map_get_None_iff)
  from absent none sendToClient_absent [OF none] show ?thesis by simp
qed


theorem cleanup_on_close_witness:
  "distinct (map fst (clients initial_world))
   \<and> sseMiddleware request_abc 7 0 initial_world = (Inr (), after_connect_abc)
   \<and> Map_get (clients after_connect_abc) ''abc'' = Some \<lparr>id' = ''abc'', response = 7\<rparr>
   \<and> Map_get (clients (emit_close 0
         (fold apply_event [Publish ''abc'' JNull, Broadcast JNull] after_connect_abc))) ''abc''
       = None
   \<and> sendToClient ''abc'' JNull
        (emit_close 0 (fold apply_event [Publish ''abc'' JNull, Broadcast JNull] after_connect_abc))
       = (Inr (),
          emit_close 0 (fold apply_event [Publish ''abc'' JNull, Broadcast JNull] after_connect_abc))"
proof -
  have d: "distinct (map fst (clients initial_world))" by (simp add: initial_world_def)
  have id: "resolve_clientId request_abc 0 = ''abc''"
    by (simp add: resolve_clientId_def request_abc_def)
  have c: "conn request_abc = 0" by (simp add: request_abc_def)
  note inst = cleanup_on_close [OF d after_connect_abc_eq id [symmetric] refl,
      of "[Publish ''abc'' JNull, Broadcast JNull]" JNull, unfolded c]
  show ?thesis using inst d after_connect_abc_eq by (simp add: after_connect_abc_clients)
qed




text \<open>
  C7 fails on the code: \<^verbatim>\<open>createToken\<close> on a body without \<^verbatim>\<open>name\<close> emits the
  \<^verbatim>\<open>started\<close> event and returns status 400 with no terminal event.
\<close>

theorem createToken_missing_field_no_terminal:
  "createToken request_without_name sdk_succeeds
     = ([message_event Token Started ''Preparing token creation transaction''], Returned 400)
   \<and> terminal_count (fst (createToken request_without_name sdk_succeeds)) = 0"
  by (simp add: createToken_def try_catch_def request_without_name_def falsy_def
      terminal_count_def terminal_def message_event_def)

end
